theory Spec2Isabelle
  imports Main "HOL-Library.Word" "HOL-Library.Multiset" "HOL-Library.Sublist"
begin

section \<open>Data of the triage bot (cmd/main.go)\<close>

text \<open>
  The program is one Go file. It reads three environment variables, fetches one pull
  request through the go-github client and runs four rules on it, one after another:
  \<^verbatim>\<open>handleTitleBasedLabel\<close>, \<^verbatim>\<open>handleDayLabel\<close>, \<^verbatim>\<open>assignDefaultAssignee\<close> and
  \<^verbatim>\<open>assignDefaultReviewers\<close>.

  Go's \<^verbatim>\<open>int\<close> is a 64-bit two's complement integer on the platforms the action is
  built for; it is a \<open>64 word\<close> here, read with \<open>sint\<close> where the program compares.
\<close>

type_synonym go_int = "64 word"

text \<open>
  Go strings are byte sequences and most of them (owner, repository, logins, label names)
  are only compared, split at a byte or tested for a byte prefix: they are \<open>string\<close>s.
  The pull-request title is the one string that goes through the Unicode-aware functions
  \<^verbatim>\<open>strings.ToLower\<close>, \<^verbatim>\<open>strings.TrimSpace\<close> and a regular expression. It arrives
  JSON-decoded, hence as valid UTF-8, and is held as the sequence of its code points.
\<close>

type_synonym rune = nat

definition runes :: "string \<Rightarrow> rune list" where
  "runes s = map of_char s"

record CommitFile =
  Additions :: go_int
  Deletions :: go_int

text \<open>
  The fields of \<^verbatim>\<open>github.PullRequest\<close> the program reads. \<open>User\<close> is what
  \<^verbatim>\<open>pr.GetUser().GetLogin()\<close> returns, \<open>Labels\<close> holds what \<^verbatim>\<open>GetName()\<close> returns for
  each label, \<open>Assignees\<close> and \<open>RequestedReviewers\<close> hold logins.
\<close>

record PullRequest =
  Title :: "rune list"
  User :: string
  Labels :: "string list"
  Assignees :: "string list"
  RequestedReviewers :: "string list"

record ListOptions =
  Page :: go_int
  PerPage :: go_int

record ListContributorsOptions = ListOptions +
  Anon :: string

record Response =
  NextPage :: go_int

datatype api_error = ApiError string

text \<open>
  Every call the program makes on the hosting API, in the order it makes them. The
  first, second and fifth are reads, the other three are writes.
\<close>

datatype event =
    Get string string go_int
  | ListFiles string string go_int "ListOptions option"
  | AddLabelsToIssue string string go_int "string list"
  | AddAssignees string string go_int "string list"
  | ListContributors string string ListContributorsOptions
  | RequestReviewers string string go_int "string list"

type_synonym history = "event list"

fun is_write :: "event \<Rightarrow> bool" where
  "is_write (AddLabelsToIssue owner repo n ls) = True"
| "is_write (AddAssignees owner repo n as) = True"
| "is_write (RequestReviewers owner repo n rs) = True"
| "is_write e = False"

text \<open>
  The go-github client and the service behind it are not part of the repository: they are
  a parameter. The service has state, so the answer to a read may depend on every call
  made before it; each read gets the history of calls so far. For the contributor
  listing an entry of the answer is what \<^verbatim>\<open>GetLogin()\<close> returns. The result of a write
  call only chooses between two log lines, and log output is not modelled, so a write
  is recorded in the history and nothing more.
\<close>

record Client =
  PullRequests_Get :: "history \<Rightarrow> string \<Rightarrow> string \<Rightarrow> go_int \<Rightarrow> api_error + PullRequest"
  PullRequests_ListFiles ::
    "history \<Rightarrow> string \<Rightarrow> string \<Rightarrow> go_int \<Rightarrow> ListOptions option
       \<Rightarrow> api_error + CommitFile list \<times> Response"
  Repositories_ListContributors ::
    "history \<Rightarrow> string \<Rightarrow> string \<Rightarrow> ListContributorsOptions
       \<Rightarrow> api_error + string list \<times> Response"

text \<open>\<^verbatim>\<open>log.Fatal\<close> and \<^verbatim>\<open>log.Fatalf\<close> end the process with exit status 1.\<close>

datatype fatal =
    TokenNotSet
  | RepositoryNotSet
  | RepositoryFormatInvalid
  | PRNumberNotSet
  | InvalidPRNumber
  | FailedToGetPR api_error
  | TitleNoColon
  | NoMatchingLabel "rune list"

section \<open>Library functions the program calls\<close>

subsection \<open>os and strconv\<close>

definition Getenv :: "(string \<rightharpoonup> string) \<Rightarrow> string \<Rightarrow> string" where
  "Getenv env key = (case env key of None \<Rightarrow> [] | Some v \<Rightarrow> v)"

definition is_digit :: "char \<Rightarrow> bool" where
  "is_digit c = (48 \<le> (of_char c :: nat) \<and> (of_char c :: nat) \<le> 57)"

fun digits_value :: "nat \<Rightarrow> string \<Rightarrow> nat" where
  "digits_value acc [] = acc"
| "digits_value acc (c # cs) = digits_value (10 * acc + (of_char c - 48)) cs"

text \<open>
  \<^verbatim>\<open>strconv.Atoi\<close>: an optional sign, then one or more decimal digits, and the value
  has to fit Go's \<^verbatim>\<open>int\<close>. \<open>None\<close> is the error return.
\<close>

definition Atoi :: "string \<Rightarrow> go_int option" where
  "Atoi s =
     (let neg = (s \<noteq> [] \<and> hd s = CHR ''-'');
          ds = (if s \<noteq> [] \<and> (hd s = CHR ''-'' \<or> hd s = CHR ''+'') then tl s else s)
      in if ds = [] \<or> \<not> list_all is_digit ds then None
         else let v = (if neg then - int (digits_value 0 ds) else int (digits_value 0 ds))
              in if v < - (2 ^ 63) \<or> 2 ^ 63 \<le> v then None else Some (word_of_int v))"

subsection \<open>strings, on bytes\<close>

text \<open>
  \<^verbatim>\<open>strings.Split(s, sep)\<close> for a separator of one byte: the pieces between the
  separators, one more than there are separators; the empty string gives one empty piece.
\<close>

fun Split :: "string \<Rightarrow> char \<Rightarrow> string list" where
  "Split [] sep = [[]]"
| "Split (c # cs) sep =
     (if c = sep then [] # Split cs sep
      else (case Split cs sep of [] \<Rightarrow> [[c]] | p # ps \<Rightarrow> (c # p) # ps))"

definition HasPrefix :: "string \<Rightarrow> string \<Rightarrow> bool" where
  "HasPrefix s pre = prefix pre s"

subsection \<open>strings, unicode and regexp, on code points\<close>

fun Contains :: "rune list \<Rightarrow> rune list \<Rightarrow> bool" where
  "Contains [] substr = (substr = [])"
| "Contains (c # cs) substr = (prefix substr (c # cs) \<or> Contains cs substr)"

text \<open>
  \<^verbatim>\<open>strings.SplitN(s, sep, 2)\<close> for a separator of one code point: the text before the
  first separator and the text after it, or \<open>s\<close> alone when there is no separator.
\<close>

definition SplitN2 :: "rune list \<Rightarrow> rune \<Rightarrow> rune list list" where
  "SplitN2 s sep =
     (if sep \<in> set s
      then [takeWhile (\<lambda>c. c \<noteq> sep) s, tl (dropWhile (\<lambda>c. c \<noteq> sep) s)]
      else [s])"

text \<open>
  \<^verbatim>\<open>unicode.IsSpace\<close>: tab, line feed, vertical tab, form feed, carriage return, space,
  U+0085 and U+00A0 in Latin-1, and above it the code points with the Unicode property
  White_Space.
\<close>

definition IsSpace :: "rune \<Rightarrow> bool" where
  "IsSpace r =
     (if r \<le> 0xFF
      then r = 0x09 \<or> r = 0x0A \<or> r = 0x0B \<or> r = 0x0C \<or> r = 0x0D \<or> r = 0x20
           \<or> r = 0x85 \<or> r = 0xA0
      else r = 0x1680 \<or> (0x2000 \<le> r \<and> r \<le> 0x200A) \<or> r = 0x2028 \<or> r = 0x2029
           \<or> r = 0x202F \<or> r = 0x205F \<or> r = 0x3000)"

text \<open>\<^verbatim>\<open>strings.TrimSpace\<close>: leading white space goes, then trailing white space.\<close>

definition TrimSpace :: "rune list \<Rightarrow> rune list" where
  "TrimSpace s = rev (dropWhile IsSpace (rev (dropWhile IsSpace s)))"

text \<open>
  \<^verbatim>\<open>unicode.ToLower\<close> adds 32 to the ASCII capitals, leaves the rest of ASCII alone
  and looks every other code point up in the Unicode case tables. The tables are not
  part of the repository: they are the parameter \<open>U\<close>, asked only above U+007F.
  \<^verbatim>\<open>strings.ToLower\<close> maps every code point of its argument.
\<close>

definition lower_rune :: "(rune \<Rightarrow> rune) \<Rightarrow> rune \<Rightarrow> rune" where
  "lower_rune U r =
     (if r \<le> 0x7F then (if 0x41 \<le> r \<and> r \<le> 0x5A then r + 0x20 else r) else U r)"

definition ToLower :: "(rune \<Rightarrow> rune) \<Rightarrow> rune list \<Rightarrow> rune list" where
  "ToLower U s = map (lower_rune U) s"

text \<open>
  What the proofs below need of the case tables: a code point above U+007F has a lower
  case that is again above U+007F or is an ASCII small letter (U+0130 goes to \<open>i\<close> and
  U+212A to \<open>k\<close>; no other code point comes down into ASCII).
\<close>

definition case_table_ok :: "(rune \<Rightarrow> rune) \<Rightarrow> bool" where
  "case_table_ok U = (\<forall>r. 0x7F < r \<longrightarrow> 0x7F < U r \<or> (0x61 \<le> U r \<and> U r \<le> 0x7A))"

text \<open>
  The regular expression \<^verbatim>\<open>[\(\[\{<].*$\<close>, replaced by the empty string with
  \<^verbatim>\<open>ReplaceAllString\<close>. A match starts at one of the four opening brackets and has to
  reach the end of the text (\<^verbatim>\<open>$\<close> without the multi-line flag), over code points
  that are not a line feed (\<^verbatim>\<open>.\<close> without the \<^verbatim>\<open>s\<close> flag). The leftmost such
  bracket starts the only match, and the text is cut there.
\<close>

definition is_open_bracket :: "rune \<Rightarrow> bool" where
  "is_open_bracket r = (r = 0x28 \<or> r = 0x5B \<or> r = 0x7B \<or> r = 0x3C)"

fun remove_bracket_tail :: "rune list \<Rightarrow> rune list" where
  "remove_bracket_tail [] = []"
| "remove_bracket_tail (c # cs) =
     (if is_open_bracket c \<and> 0x0A \<notin> set cs then [] else c # remove_bracket_tail cs)"

subsection \<open>math/rand\<close>

text \<open>
  \<^verbatim>\<open>rand.Shuffle(n, swap)\<close> runs \<open>i\<close> from \<open>n - 1\<close> down to 1, draws \<open>j\<close> from
  \<open>0..i\<close> and calls \<open>swap(i, j)\<close>. The random source is the parameter \<open>rnd\<close>: the draw
  made at \<open>i\<close> is \<open>rnd i mod (i + 1)\<close>. The program's \<open>swap\<close> exchanges two entries of
  the slice \<open>contributors\<close> in place.
\<close>

definition swap_entries :: "nat \<Rightarrow> nat \<Rightarrow> 'a list \<Rightarrow> 'a list" where
  "swap_entries i j contributors = (contributors[i := contributors ! j])[j := contributors ! i]"

fun shuffle_from :: "(nat \<Rightarrow> nat) \<Rightarrow> nat \<Rightarrow> 'a list \<Rightarrow> 'a list" where
  "shuffle_from rnd 0 xs = xs"
| "shuffle_from rnd (Suc i) xs = shuffle_from rnd i (swap_entries (Suc i) (rnd (Suc i) mod (Suc i + 1)) xs)"

definition Shuffle :: "(nat \<Rightarrow> nat) \<Rightarrow> 'a list \<Rightarrow> 'a list" where
  "Shuffle rnd xs = (if xs = [] then xs else shuffle_from rnd (length xs - 1) xs)"

section \<open>The four rules\<close>

subsection \<open>handleTitleBasedLabel\<close>

definition labelMap :: "rune list \<rightharpoonup> string" where
  "labelMap =
     [runes ''feat'' \<mapsto> ''enhancement'',
      runes ''fix'' \<mapsto> ''bug'',
      runes ''docs'' \<mapsto> ''documentation'',
      runes ''style'' \<mapsto> ''style'',
      runes ''refactor'' \<mapsto> ''refactor'',
      runes ''perf'' \<mapsto> ''performance'',
      runes ''test'' \<mapsto> ''test'',
      runes ''chore'' \<mapsto> ''chore'']"

text \<open>Lines 78 to 83: the prefix the label is looked up with.\<close>

definition clean_prefix :: "(rune \<Rightarrow> rune) \<Rightarrow> rune list \<Rightarrow> rune list" where
  "clean_prefix U title =
     (let parts = SplitN2 title 0x3A;
          prefix = ToLower U (TrimSpace (parts ! 0))
      in remove_bracket_tail prefix)"

definition handleTitleBasedLabel ::
  "(rune \<Rightarrow> rune) \<Rightarrow> string \<Rightarrow> string \<Rightarrow> go_int \<Rightarrow> PullRequest \<Rightarrow> history
     \<Rightarrow> (fatal + unit) \<times> history" where
  "handleTitleBasedLabel U owner repo prNumber pr h =
     (let title = Title pr
      in if \<not> Contains (ToLower U title) [0x3A] then (Inl TitleNoColon, h)
         else let prefix = clean_prefix U title
              in case labelMap prefix of
                   None \<Rightarrow> (Inl (NoMatchingLabel prefix), h)
                 | Some label \<Rightarrow>
                     if list_ex (\<lambda>l. l = label) (Labels pr) then (Inr (), h)
                     else (Inr (), h @ [AddLabelsToIssue owner repo prNumber [label]]))"

subsection \<open>handleDayLabel\<close>

text \<open>Lines 123 to 126: the running sum, in Go's \<^verbatim>\<open>int\<close>.\<close>

definition totalChanges :: "CommitFile list \<Rightarrow> go_int" where
  "totalChanges files = foldl (\<lambda>changes file. changes + (Additions file + Deletions file)) 0 files"

text \<open>Lines 128 to 135.\<close>

definition dayLabel :: "go_int \<Rightarrow> string" where
  "dayLabel changes =
     (if sint changes < 200 then ''D-3''
      else if sint changes < 500 then ''D-5''
      else ''D-7'')"

text \<open>
  The file list is asked for once, with \<^verbatim>\<open>nil\<close> options, and the \<^verbatim>\<open>Response\<close> that
  comes with it is dropped.
\<close>

definition handleDayLabel ::
  "Client \<Rightarrow> string \<Rightarrow> string \<Rightarrow> go_int \<Rightarrow> PullRequest \<Rightarrow> history \<Rightarrow> history" where
  "handleDayLabel client owner repo prNumber pr h =
     (let h1 = h @ [ListFiles owner repo prNumber None]
      in case PullRequests_ListFiles client h owner repo prNumber None of
           Inl err \<Rightarrow> h1
         | Inr (files, resp) \<Rightarrow>
             if list_ex (\<lambda>lab. HasPrefix lab ''D-'') (Labels pr) then h1
             else h1 @ [AddLabelsToIssue owner repo prNumber [dayLabel (totalChanges files)]])"

subsection \<open>assignDefaultAssignee\<close>

definition assignDefaultAssignee ::
  "string \<Rightarrow> string \<Rightarrow> go_int \<Rightarrow> PullRequest \<Rightarrow> history \<Rightarrow> history" where
  "assignDefaultAssignee owner repo prNumber pr h =
     (if length (Assignees pr) \<noteq> 0 then h
      else h @ [AddAssignees owner repo prNumber [User pr]])"

subsection \<open>assignDefaultReviewers\<close>

text \<open>
  Lines 177 to 193: the walk over the pages of the contributor list. The service
  decides when it ends (\<open>NextPage = 0\<close> or an error), so the walk need not end:
  \<open>None\<close> is the run that never leaves the loop.
\<close>

partial_function (option) list_contributors ::
  "Client \<Rightarrow> string \<Rightarrow> string \<Rightarrow> string \<Rightarrow> ListContributorsOptions \<Rightarrow> string list \<Rightarrow> history
     \<Rightarrow> (string list \<times> history) option" where
  "list_contributors client owner repo author opts contributors h =
     (case Repositories_ListContributors client h owner repo opts of
        Inl err \<Rightarrow> Some (contributors, h @ [ListContributors owner repo opts])
      | Inr (contributor, resp) \<Rightarrow>
          if NextPage resp = 0
          then Some (contributors @ filter (\<lambda>login. login \<noteq> author) contributor,
                     h @ [ListContributors owner repo opts])
          else list_contributors client owner repo author (opts\<lparr>Page := NextPage resp\<rparr>)
                 (contributors @ filter (\<lambda>login. login \<noteq> author) contributor)
                 (h @ [ListContributors owner repo opts]))"

declare list_contributors.simps [code]

definition assignDefaultReviewers ::
  "Client \<Rightarrow> (nat \<Rightarrow> nat) \<Rightarrow> string \<Rightarrow> string \<Rightarrow> go_int \<Rightarrow> PullRequest \<Rightarrow> history
     \<Rightarrow> history option" where
  "assignDefaultReviewers client rnd owner repo prNumber pr h =
     (if length (RequestedReviewers pr) \<noteq> 0 then Some h
      else case list_contributors client owner repo (User pr)
                  \<lparr>Page = 0, PerPage = 100, Anon = []\<rparr> [] h of
             None \<Rightarrow> None
           | Some (contributors, h1) \<Rightarrow>
               if length contributors = 0
                  \<or> (length contributors = 1 \<and> contributors ! 0 = User pr)
               then Some h1
               else Some (h1 @ [RequestReviewers owner repo prNumber
                                  (if length contributors > 10
                                   then take 10 (Shuffle rnd contributors)
                                   else contributors)]))"

section \<open>main\<close>

text \<open>
  \<open>env\<close> is the process environment and \<open>newGitHubClient\<close> gives the client built
  for a token. The result is the exit (\<open>Inl\<close> for a fatal one) with the calls made, or
  \<open>None\<close> when the contributor walk never ends.
\<close>

definition main ::
  "(string \<rightharpoonup> string) \<Rightarrow> (string \<Rightarrow> Client) \<Rightarrow> (rune \<Rightarrow> rune) \<Rightarrow> (nat \<Rightarrow> nat)
     \<Rightarrow> ((fatal + unit) \<times> history) option" where
  "main env newGitHubClient U rnd =
     (let token = Getenv env ''GITHUB_TOKEN''
      in if token = [] then Some (Inl TokenNotSet, [])
      else let repoFull = Getenv env ''GITHUB_REPOSITORY''
      in if repoFull = [] then Some (Inl RepositoryNotSet, [])
      else let parts = Split repoFull CHR ''/''
      in if length parts \<noteq> 2 then Some (Inl RepositoryFormatInvalid, [])
      else let owner = parts ! 0; repo = parts ! 1;
               prNumberStr = Getenv env ''PR_NUMBER''
      in if prNumberStr = [] then Some (Inl PRNumberNotSet, [])
      else case Atoi prNumberStr of
             None \<Rightarrow> Some (Inl InvalidPRNumber, [])
           | Some prNumber \<Rightarrow>
               (let client = newGitHubClient token;
                    h0 = [Get owner repo prNumber]
                in case PullRequests_Get client [] owner repo prNumber of
                     Inl err \<Rightarrow> Some (Inl (FailedToGetPR err), h0)
                   | Inr pr \<Rightarrow>
                       (case handleTitleBasedLabel U owner repo prNumber pr h0 of
                          (Inl f, h1) \<Rightarrow> Some (Inl f, h1)
                        | (Inr u, h1) \<Rightarrow>
                            (let h2 = handleDayLabel client owner repo prNumber pr h1;
                                 h3 = assignDefaultAssignee owner repo prNumber pr h2
                             in case assignDefaultReviewers client rnd owner repo prNumber pr h3 of
                                  None \<Rightarrow> None
                                | Some h4 \<Rightarrow> Some (Inr (), h4)))))"

section \<open>What the specification says of the cleaned prefix\<close>

text \<open>
  Section 4.1 of the specification, word for word: the text before the first colon,
  trimmed, in lower case, cut at the first opening bracket.
\<close>

definition clean_prefix_spec :: "(rune \<Rightarrow> rune) \<Rightarrow> rune list \<Rightarrow> rune list" where
  "clean_prefix_spec U title =
     takeWhile (\<lambda>r. \<not> is_open_bracket r)
       (ToLower U (TrimSpace (takeWhile (\<lambda>r. r \<noteq> 0x3A) title)))"

section \<open>A service to run the program against\<close>

text \<open>
  A stand-in for the hosting service that answers as the real one does: it returns one
  pull request, and serves a collection page by page, pages counted from 1 (page 0 is
  page 1), with \<open>NextPage = 0\<close> on the last page.
\<close>

definition serve_page :: "'a list list \<Rightarrow> go_int \<Rightarrow> 'a list \<times> Response" where
  "serve_page pages p =
     (let i = (if p = 0 then 1 else unat p)
      in (if i \<le> length pages then pages ! (i - 1) else [],
          \<lparr>NextPage = (if i < length pages then of_nat (i + 1) else 0)\<rparr>))"

definition paged_service :: "PullRequest \<Rightarrow> CommitFile list list \<Rightarrow> string list list \<Rightarrow> Client" where
  "paged_service pr files contributors =
     \<lparr>PullRequests_Get = (\<lambda>h owner repo n. Inr pr),
      PullRequests_ListFiles =
        (\<lambda>h owner repo n opts. Inr (serve_page files (case opts of None \<Rightarrow> 0 | Some given \<Rightarrow> Page given))),
      Repositories_ListContributors =
        (\<lambda>h owner repo opts. Inr (serve_page contributors (Page opts)))\<rparr>"

definition pr_open :: PullRequest where
  "pr_open =
     \<lparr>Title = runes ''feat: x'', User = ''alice'', Labels = [], Assignees = [],
      RequestedReviewers = []\<rparr>"

definition pr_settled :: PullRequest where
  "pr_settled =
     \<lparr>Title = runes ''feat: x'', User = ''alice'', Labels = [''enhancement'', ''D-5''],
      Assignees = [''alice''], RequestedReviewers = [''bob'']\<rparr>"

definition logins12 :: "string list" where
  "logins12 =
     [''u01'', ''u02'', ''u03'', ''u04'', ''u05'', ''u06'',
      ''u07'', ''u08'', ''u09'', ''u10'', ''u11'', ''u12'']"

definition environment :: "string \<Rightarrow> string \<Rightarrow> string \<Rightarrow> (string \<rightharpoonup> string)" where
  "environment token repository number =
     [''GITHUB_TOKEN'' \<mapsto> token, ''GITHUB_REPOSITORY'' \<mapsto> repository, ''PR_NUMBER'' \<mapsto> number]"

text \<open>
  A pull request of 31 changed files, listed on two pages: the service's page holds 30
  files when the caller names no page size.
\<close>

definition files_page_1 :: "CommitFile list" where
  "files_page_1 = replicate 30 \<lparr>Additions = 1, Deletions = 0\<rparr>"

definition files_page_2 :: "CommitFile list" where
  "files_page_2 = [\<lparr>Additions = 600, Deletions = 0\<rparr>]"

text \<open>
  A case table that leaves every code point above U+007F as it is, and two sequences of
  draws for the shuffle: always 0, and always the top index (each swap is then of an
  entry with itself).
\<close>

definition identity_table :: "rune \<Rightarrow> rune" where
  "identity_table r = r"

definition draw_zero :: "nat \<Rightarrow> nat" where
  "draw_zero i = 0"

definition draw_top :: "nat \<Rightarrow> nat" where
  "draw_top i = i"

definition settled_client :: "string \<Rightarrow> Client" where
  "settled_client token = paged_service pr_settled [[]] []"

definition pr_untagged :: PullRequest where
  "pr_untagged =
     \<lparr>Title = runes ''update the readme'', User = ''alice'', Labels = [], Assignees = [],
      RequestedReviewers = []\<rparr>"

definition untagged_client :: "string \<Rightarrow> Client" where
  "untagged_client token = paged_service pr_untagged [] []"

definition pr_scope_only :: PullRequest where
  "pr_scope_only =
     \<lparr>Title = runes ''(api): add endpoint'', User = ''alice'', Labels = [], Assignees = [],
      RequestedReviewers = []\<rparr>"

definition scope_only_client :: "string \<Rightarrow> Client" where
  "scope_only_client token = paged_service pr_scope_only [] []"

section \<open>Facts about the library functions\<close>

lemma swap_entries_length [simp]: "length (swap_entries i j cs) = length cs"
  by (simp add: swap_entries_def)

lemma swap_entries_mset [simp]:
  "i < length cs \<Longrightarrow> j < length cs \<Longrightarrow> mset (swap_entries i j cs) = mset cs"
  unfolding swap_entries_def by (rule mset_swap)

lemma mset_shuffle_from: "i < length xs \<Longrightarrow> mset (shuffle_from rnd i xs) = mset xs"
proof (induction i arbitrary: xs)
  case 0
  then show ?case by simp
next
  case (Suc i)
  have "rnd (Suc i) mod (Suc i + 1) < Suc i + 1"
    by (rule mod_less_divisor) simp
  moreover have "Suc i + 1 \<le> length xs"
    using Suc.prems by simp
  ultimately have j: "rnd (Suc i) mod (Suc i + 1) < length xs"
    by (rule less_le_trans)
  show ?case using Suc j by simp
qed

lemma mset_Shuffle: "mset (Shuffle rnd xs) = mset xs"
  by (cases "xs = []") (simp_all add: Shuffle_def mset_shuffle_from)

section \<open>The size rule\<close>

lemma dayLabel_cases:
  "(sint n < 200 \<longrightarrow> dayLabel n = ''D-3'')
   \<and> (200 \<le> sint n \<and> sint n < 500 \<longrightarrow> dayLabel n = ''D-5'')
   \<and> (500 \<le> sint n \<longrightarrow> dayLabel n = ''D-7'')"
  by (simp add: dayLabel_def)

lemma dayLabel_examples:
  "dayLabel 0 = ''D-3'' \<and> dayLabel 199 = ''D-3'' \<and> dayLabel 200 = ''D-5''
   \<and> dayLabel 499 = ''D-5'' \<and> dayLabel 500 = ''D-7'' \<and> dayLabel 10000 = ''D-7''"
  by (simp add: dayLabel_def)

lemma handleDayLabel_adds:
  "PullRequests_ListFiles client h owner repo prNumber None = Inr (files, resp)
     \<and> \<not> list_ex (\<lambda>lab. HasPrefix lab ''D-'') (Labels pr) \<longrightarrow>
   handleDayLabel client owner repo prNumber pr h =
     h @ [ListFiles owner repo prNumber None,
          AddLabelsToIssue owner repo prNumber [dayLabel (totalChanges files)]]"
  by (simp add: handleDayLabel_def)

text \<open>
  C2. Fewer than 200 changed lines give \<open>D-3\<close>, 200 up to 499 give \<open>D-5\<close>, 500 and
  more give \<open>D-7\<close>; so 0 and 199 give \<open>D-3\<close>, 200 and 499 give \<open>D-5\<close>, 500 and 10000
  give \<open>D-7\<close>. The label the rule adds is the one chosen this way for the sum it
  computed.
\<close>

theorem C2_size_thresholds:
  "(sint n < 200 \<longrightarrow> dayLabel n = ''D-3'')
   \<and> (200 \<le> sint n \<and> sint n < 500 \<longrightarrow> dayLabel n = ''D-5'')
   \<and> (500 \<le> sint n \<longrightarrow> dayLabel n = ''D-7'')
   \<and> (dayLabel 0 = ''D-3'' \<and> dayLabel 199 = ''D-3'' \<and> dayLabel 200 = ''D-5''
        \<and> dayLabel 499 = ''D-5'' \<and> dayLabel 500 = ''D-7'' \<and> dayLabel 10000 = ''D-7'')
   \<and> (PullRequests_ListFiles client h owner repo prNumber None = Inr (files, resp)
          \<and> \<not> list_ex (\<lambda>lab. HasPrefix lab ''D-'') (Labels pr) \<longrightarrow>
        handleDayLabel client owner repo prNumber pr h =
          h @ [ListFiles owner repo prNumber None,
               AddLabelsToIssue owner repo prNumber [dayLabel (totalChanges files)]])"
  using dayLabel_cases [of n] dayLabel_examples
    handleDayLabel_adds [of client h owner repo prNumber files resp pr]
  by blast

theorem C2_size_thresholds_witness:
  "sint (150 :: go_int) < 200 \<and> dayLabel 150 = ''D-3''
   \<and> 200 \<le> sint (250 :: go_int) \<and> sint (250 :: go_int) < 500 \<and> dayLabel 250 = ''D-5''
   \<and> 500 \<le> sint (1000 :: go_int) \<and> dayLabel 1000 = ''D-7''
   \<and> handleDayLabel
        (paged_service pr_open [[\<lparr>Additions = 120, Deletions = 130\<rparr>]] []) ''o'' ''r'' 7 pr_open []
      = [ListFiles ''o'' ''r'' 7 None, AddLabelsToIssue ''o'' ''r'' 7 [''D-5'']]"
proof -
  have files: "PullRequests_ListFiles
      (paged_service pr_open [[\<lparr>Additions = 120, Deletions = 130\<rparr>]] []) [] ''o'' ''r'' 7 None
    = Inr ([\<lparr>Additions = 120, Deletions = 130\<rparr>], \<lparr>NextPage = 0\<rparr>)"
    by (simp add: paged_service_def serve_page_def)
  have labels: "\<not> list_ex (\<lambda>lab. HasPrefix lab ''D-'') (Labels pr_open)"
    by (simp add: pr_open_def)
  have changes: "totalChanges [\<lparr>Additions = 120, Deletions = 130\<rparr>] = 250"
    by (simp add: totalChanges_def)
  have a: "sint (150 :: go_int) < 200" and b: "200 \<le> sint (250 :: go_int)"
    and c: "sint (250 :: go_int) < 500" and d: "500 \<le> sint (1000 :: go_int)"
    by simp_all
  show ?thesis
    using a b c d files labels changes
      C2_size_thresholds [where n = 150]
      C2_size_thresholds [where n = 250 and client = "paged_service pr_open [[\<lparr>Additions = 120, Deletions = 130\<rparr>]] []"
        and h = "[]" and owner = "''o''" and repo = "''r''" and prNumber = 7 and pr = pr_open
        and files = "[\<lparr>Additions = 120, Deletions = 130\<rparr>]" and resp = "\<lparr>NextPage = 0\<rparr>"]
      C2_size_thresholds [where n = 1000]
    by simp
qed

text \<open>
  C1 does not hold of the program. \<^verbatim>\<open>handleDayLabel\<close> asks for the file list once, with
  \<^verbatim>\<open>nil\<close> options, and never looks at \<open>NextPage\<close>; the contributor walk of
  \<^verbatim>\<open>assignDefaultReviewers\<close> follows \<open>NextPage\<close> until it is 0. For the pull request
  of 31 files the program sums the 30 files of the first page and adds \<open>D-3\<close>; the sum
  over both pages is 630, which is \<open>D-7\<close>.
\<close>

theorem C1_only_first_page_counted:
  "handleDayLabel (paged_service pr_open [files_page_1, files_page_2] []) ''o'' ''r'' 7 pr_open []
     = [ListFiles ''o'' ''r'' 7 None, AddLabelsToIssue ''o'' ''r'' 7 [''D-3'']]
   \<and> PullRequests_ListFiles (paged_service pr_open [files_page_1, files_page_2] []) []
        ''o'' ''r'' 7 None = Inr (files_page_1, \<lparr>NextPage = 2\<rparr>)
   \<and> totalChanges (files_page_1 @ files_page_2) = 630
   \<and> dayLabel (totalChanges (files_page_1 @ files_page_2)) = ''D-7''"
  by code_simp

text \<open>
  C7, as the claim has it, fails: the rule does not skip entirely. It asks the service
  for the file list at line 117 and sums the files before it looks at the labels at
  lines 138 to 143. For a pull request that carries \<open>D-5\<close> the rule still makes one
  call on the service, so its history is not the one it started with.
\<close>

theorem C7_file_list_still_read_counterexample:
  "list_ex (\<lambda>lab. HasPrefix lab ''D-'') (Labels pr_settled)
   \<and> handleDayLabel (paged_service pr_settled [files_page_1, files_page_2] [])
        ''o'' ''r'' 7 pr_settled []
      = [ListFiles ''o'' ''r'' 7 None]
   \<and> handleDayLabel (paged_service pr_settled [files_page_1, files_page_2] [])
        ''o'' ''r'' 7 pr_settled []
      \<noteq> []"
  by code_simp

text \<open>
  C7, amended. When a label of the pull request starts with \<open>D-\<close>, the rule adds no
  size label and makes no write, whatever the files are; what it does is its one read of
  the file list, after which it returns.
\<close>

theorem C7_existing_day_label_kept:
  "list_ex (\<lambda>lab. HasPrefix lab ''D-'') (Labels pr) \<Longrightarrow>
   handleDayLabel client owner repo prNumber pr h = h @ [ListFiles owner repo prNumber None]
   \<and> \<not> list_ex is_write [ListFiles owner repo prNumber None]"
  by (simp add: handleDayLabel_def Let_def split: sum.splits)

theorem C7_existing_day_label_kept_witness:
  "list_ex (\<lambda>lab. HasPrefix lab ''D-'') (Labels pr_settled)
   \<and> handleDayLabel (paged_service pr_settled [[\<lparr>Additions = 900, Deletions = 0\<rparr>]] [])
        ''o'' ''r'' 7 pr_settled []
      = [ListFiles ''o'' ''r'' 7 None]"
proof -
  have l: "list_ex (\<lambda>lab. HasPrefix lab ''D-'') (Labels pr_settled)"
    by (simp add: pr_settled_def HasPrefix_def)
  show ?thesis
    using l C7_existing_day_label_kept [OF l, of "paged_service pr_settled [[\<lparr>Additions = 900, Deletions = 0\<rparr>]] []" "''o''" "''r''" 7 "[]"]
    by simp
qed

section \<open>The reviewer rule\<close>

text \<open>The walk over the contributor pages never puts the author into the list.\<close>

lemma list_contributors_author:
  assumes "list_contributors client owner repo author opts acc h = Some res"
  shows "author \<notin> set acc \<longrightarrow> author \<notin> set (fst res)"
  by (rule list_contributors.raw_induct
        [where P = "\<lambda>c ow r a opts acc h res. a \<notin> set acc \<longrightarrow> a \<notin> set (fst res)",
         OF _ assms])
     (auto split: sum.splits if_splits prod.splits)

lemma singleton_guard_idle:
  assumes "author \<notin> set pool"
  shows "\<not> (length pool = 1 \<and> pool ! 0 = author)"
proof
  assume "length pool = 1 \<and> pool ! 0 = author"
  then have "author \<in> set pool"
    by (metis nth_mem zero_less_one)
  with assms show False by simp
qed

lemma Shuffle_take_10:
  assumes "distinct pool" and "10 < length pool"
  shows "length (take 10 (Shuffle rnd pool)) = 10
     \<and> distinct (take 10 (Shuffle rnd pool))
     \<and> set (take 10 (Shuffle rnd pool)) \<subseteq> set pool"
proof -
  have m: "mset (Shuffle rnd pool) = mset pool"
    by (rule mset_Shuffle)
  have "length (Shuffle rnd pool) = length pool"
    using m by (metis size_mset)
  then have l: "length (take 10 (Shuffle rnd pool)) = 10"
    using assms(2) by simp
  have "distinct (Shuffle rnd pool)"
    using mset_eq_imp_distinct_iff [OF m] assms(1) by simp
  then have d: "distinct (take 10 (Shuffle rnd pool))"
    by simp
  have "set (Shuffle rnd pool) = set pool"
    using m by (rule mset_eq_setD)
  then have s: "set (take 10 (Shuffle rnd pool)) \<subseteq> set pool"
    using set_take_subset by metis
  from l d s show ?thesis by blast
qed

text \<open>
  C8. With a requested reviewer on the pull request the rule returns at once: the
  history is unchanged, so there is no write and no fetch of the contributor list.
\<close>

theorem C8_reviewers_present_noop:
  "RequestedReviewers pr \<noteq> [] \<Longrightarrow>
   assignDefaultReviewers client rnd owner repo prNumber pr h = Some h"
  by (simp add: assignDefaultReviewers_def)

theorem C8_reviewers_present_noop_witness:
  "RequestedReviewers pr_settled \<noteq> []
   \<and> assignDefaultReviewers (paged_service pr_settled [] [logins12]) draw_zero
        ''o'' ''r'' 7 pr_settled [] = Some []"
proof -
  have r: "RequestedReviewers pr_settled \<noteq> []"
    by (simp add: pr_settled_def)
  show ?thesis
    using r C8_reviewers_present_noop [OF r, of "paged_service pr_settled [] [logins12]" draw_zero "''o''" "''r''" 7 "[]"]
    by simp
qed

text \<open>
  C9. Whenever the walk over the contributor pages ends, the list it has built does not
  hold the author's login. So the second half of the guard at line 194 (one entry, equal
  to the author) is never true, and a list of one login ends in a reviewer request for
  exactly that login.
\<close>

theorem C9_author_never_in_pool:
  assumes "RequestedReviewers pr = []"
    and "list_contributors client owner repo (User pr)
           \<lparr>Page = 0, PerPage = 100, Anon = []\<rparr> [] h = Some (pool, h1)"
  shows "User pr \<notin> set pool
     \<and> \<not> (length pool = 1 \<and> pool ! 0 = User pr)
     \<and> (\<forall>login. pool = [login] \<longrightarrow>
           assignDefaultReviewers client rnd owner repo prNumber pr h
             = Some (h1 @ [RequestReviewers owner repo prNumber [login]]))"
proof -
  have a: "User pr \<notin> set pool"
    using list_contributors_author [OF assms(2)] by simp
  have b: "\<not> (length pool = 1 \<and> pool ! 0 = User pr)"
    using a by (rule singleton_guard_idle)
  have c: "\<forall>login. pool = [login] \<longrightarrow>
           assignDefaultReviewers client rnd owner repo prNumber pr h
             = Some (h1 @ [RequestReviewers owner repo prNumber [login]])"
    using a assms by (auto simp add: assignDefaultReviewers_def)
  from a b c show ?thesis by blast
qed

theorem C9_author_never_in_pool_witness:
  "assignDefaultReviewers (paged_service pr_open [] [[''alice''], [''bob'', ''alice'']]) draw_zero
     ''o'' ''r'' 7 pr_open []
   = Some [ListContributors ''o'' ''r'' \<lparr>Page = 0, PerPage = 100, Anon = []\<rparr>,
           ListContributors ''o'' ''r'' \<lparr>Page = 2, PerPage = 100, Anon = []\<rparr>,
           RequestReviewers ''o'' ''r'' 7 [''bob'']]"
proof -
  have r: "RequestedReviewers pr_open = []"
    by (simp add: pr_open_def)
  have w: "list_contributors (paged_service pr_open [] [[''alice''], [''bob'', ''alice'']])
             ''o'' ''r'' (User pr_open) \<lparr>Page = 0, PerPage = 100, Anon = []\<rparr> [] []
           = Some ([''bob''],
                   [ListContributors ''o'' ''r'' \<lparr>Page = 0, PerPage = 100, Anon = []\<rparr>,
                    ListContributors ''o'' ''r'' \<lparr>Page = 2, PerPage = 100, Anon = []\<rparr>])"
    by code_simp
  show ?thesis
    using C9_author_never_in_pool [OF r w, of draw_zero 7] by simp
qed

text \<open>
  C4, as the claim has it, fails: the program does not remove repeated logins, so a
  listing that names a contributor twice gives a request that names one twice. Here the
  service lists \<open>u06\<close> at the end of the first page and again at the start of the
  second (the ranking moved between the two calls): eleven entries, ten different
  logins. The draws leave the slice as it is, and the request repeats \<open>u06\<close> and
  leaves \<open>u10\<close> out.
\<close>

theorem C4_repeated_login_counterexample:
  "assignDefaultReviewers
     (paged_service pr_open []
        [[''u01'', ''u02'', ''u03'', ''u04'', ''u05'', ''u06''],
         [''u06'', ''u07'', ''u08'', ''u09'', ''u10'']])
     draw_top ''o'' ''r'' 7 pr_open []
   = Some [ListContributors ''o'' ''r'' \<lparr>Page = 0, PerPage = 100, Anon = []\<rparr>,
           ListContributors ''o'' ''r'' \<lparr>Page = 2, PerPage = 100, Anon = []\<rparr>,
           RequestReviewers ''o'' ''r'' 7
             [''u01'', ''u02'', ''u03'', ''u04'', ''u05'', ''u06'', ''u06'', ''u07'', ''u08'',
              ''u09'']]
   \<and> \<not> distinct [''u01'', ''u02'', ''u03'', ''u04'', ''u05'', ''u06'', ''u06'', ''u07'',
                   ''u08'', ''u09'']
   \<and> ''u10'' \<notin> set [''u01'', ''u02'', ''u03'', ''u04'', ''u05'', ''u06'', ''u06'', ''u07'',
                       ''u08'', ''u09'']"
  by code_simp

text \<open>
  C4, amended. Whenever the walk over the contributor pages ends with a list that has no
  repeated login and more than 10 entries, the request carries exactly 10 logins, no two
  equal, each from the list; whenever it ends with a list of 1 to 10 entries, the request
  carries the list as it is. (The author is never in the list, see C9.)
\<close>

theorem C4_sample_of_ten:
  assumes "RequestedReviewers pr = []"
    and "list_contributors client owner repo (User pr)
           \<lparr>Page = 0, PerPage = 100, Anon = []\<rparr> [] h = Some (pool, h1)"
  shows "(distinct pool \<and> 10 < length pool \<longrightarrow>
           (\<exists>reviewers. assignDefaultReviewers client rnd owner repo prNumber pr h
                = Some (h1 @ [RequestReviewers owner repo prNumber reviewers])
              \<and> length reviewers = 10 \<and> distinct reviewers \<and> set reviewers \<subseteq> set pool))
      \<and> (pool \<noteq> [] \<and> length pool \<le> 10 \<longrightarrow>
           assignDefaultReviewers client rnd owner repo prNumber pr h
             = Some (h1 @ [RequestReviewers owner repo prNumber pool]))"
proof -
  have a: "User pr \<notin> set pool"
    using list_contributors_author [OF assms(2)] by simp
  have guard: "\<not> (length pool = 1 \<and> pool ! 0 = User pr)"
    using a by (rule singleton_guard_idle)
  have big: "distinct pool \<and> 10 < length pool \<longrightarrow>
           (\<exists>reviewers. assignDefaultReviewers client rnd owner repo prNumber pr h
                = Some (h1 @ [RequestReviewers owner repo prNumber reviewers])
              \<and> length reviewers = 10 \<and> distinct reviewers \<and> set reviewers \<subseteq> set pool)"
  proof
    assume h: "distinct pool \<and> 10 < length pool"
    have "assignDefaultReviewers client rnd owner repo prNumber pr h
        = Some (h1 @ [RequestReviewers owner repo prNumber (take 10 (Shuffle rnd pool))])"
      using h assms guard by (auto simp add: assignDefaultReviewers_def)
    with Shuffle_take_10 [of pool rnd] h
    show "\<exists>reviewers. assignDefaultReviewers client rnd owner repo prNumber pr h
                = Some (h1 @ [RequestReviewers owner repo prNumber reviewers])
              \<and> length reviewers = 10 \<and> distinct reviewers \<and> set reviewers \<subseteq> set pool"
      by blast
  qed
  have small: "pool \<noteq> [] \<and> length pool \<le> 10 \<longrightarrow>
           assignDefaultReviewers client rnd owner repo prNumber pr h
             = Some (h1 @ [RequestReviewers owner repo prNumber pool])"
    using assms guard by (auto simp add: assignDefaultReviewers_def)
  from big small show ?thesis by blast
qed

theorem C4_sample_of_ten_witness:
  "(\<exists>reviewers.
      assignDefaultReviewers
        (paged_service pr_open [] [''alice'' # take 6 logins12, drop 6 logins12]) draw_zero
        ''o'' ''r'' 7 pr_open []
      = Some ([ListContributors ''o'' ''r'' \<lparr>Page = 0, PerPage = 100, Anon = []\<rparr>,
               ListContributors ''o'' ''r'' \<lparr>Page = 2, PerPage = 100, Anon = []\<rparr>]
              @ [RequestReviewers ''o'' ''r'' 7 reviewers])
      \<and> length reviewers = 10 \<and> distinct reviewers \<and> set reviewers \<subseteq> set logins12)
   \<and> assignDefaultReviewers (paged_service pr_open [] [[''bob'', ''alice'', ''carol'']]) draw_zero
        ''o'' ''r'' 7 pr_open []
      = Some ([ListContributors ''o'' ''r'' \<lparr>Page = 0, PerPage = 100, Anon = []\<rparr>]
              @ [RequestReviewers ''o'' ''r'' 7 [''bob'', ''carol'']])"
proof -
  have r: "RequestedReviewers pr_open = []"
    by (simp add: pr_open_def)
  have w12: "list_contributors
               (paged_service pr_open [] [''alice'' # take 6 logins12, drop 6 logins12])
               ''o'' ''r'' (User pr_open) \<lparr>Page = 0, PerPage = 100, Anon = []\<rparr> [] []
             = Some (logins12,
                     [ListContributors ''o'' ''r'' \<lparr>Page = 0, PerPage = 100, Anon = []\<rparr>,
                      ListContributors ''o'' ''r'' \<lparr>Page = 2, PerPage = 100, Anon = []\<rparr>])"
    by code_simp
  have w2: "list_contributors (paged_service pr_open [] [[''bob'', ''alice'', ''carol'']])
               ''o'' ''r'' (User pr_open) \<lparr>Page = 0, PerPage = 100, Anon = []\<rparr> [] []
             = Some ([''bob'', ''carol''],
                     [ListContributors ''o'' ''r'' \<lparr>Page = 0, PerPage = 100, Anon = []\<rparr>])"
    by code_simp
  have d: "distinct logins12 \<and> 10 < length logins12"
    by (simp add: logins12_def)
  show ?thesis
    using d C4_sample_of_ten [OF r w12, of draw_zero 7] C4_sample_of_ten [OF r w2, of draw_zero 7]
    by simp
qed

section \<open>Start-up validation\<close>

lemma Split_not_Nil: "Split s sep \<noteq> []"
  by (induction s) (auto split: list.splits)

lemma length_Split: "length (Split s sep) = Suc (count_list s sep)"
proof (induction s)
  case Nil
  then show ?case by simp
next
  case (Cons c cs)
  then show ?case
    using Split_not_Nil [of cs sep] by (cases "Split cs sep") auto
qed

lemma handleTitleBasedLabel_fatal:
  assumes "handleTitleBasedLabel U owner repo prNumber pr h = (Inl f, h1)"
  shows "f = TitleNoColon \<or> (\<exists>p. f = NoMatchingLabel p)"
  using assms
  by (auto simp add: handleTitleBasedLabel_def Let_def split: if_splits option.splits)

lemma main_repository_rejected:
  assumes "Getenv env ''GITHUB_REPOSITORY'' = []
     \<or> count_list (Getenv env ''GITHUB_REPOSITORY'') CHR ''/'' \<noteq> 1"
  shows "main env newGitHubClient U rnd = Some (Inl TokenNotSet, [])
     \<or> main env newGitHubClient U rnd = Some (Inl RepositoryNotSet, [])
     \<or> main env newGitHubClient U rnd = Some (Inl RepositoryFormatInvalid, [])"
  using assms by (auto simp add: main_def Let_def length_Split)

lemma main_repository_named:
  assumes "Getenv env ''GITHUB_TOKEN'' \<noteq> []"
  shows "(Getenv env ''GITHUB_REPOSITORY'' = [] \<longrightarrow>
            main env newGitHubClient U rnd = Some (Inl RepositoryNotSet, []))
     \<and> (Getenv env ''GITHUB_REPOSITORY'' \<noteq> []
          \<and> count_list (Getenv env ''GITHUB_REPOSITORY'') CHR ''/'' \<noteq> 1 \<longrightarrow>
            main env newGitHubClient U rnd = Some (Inl RepositoryFormatInvalid, []))"
  using assms by (auto simp add: main_def Let_def length_Split)

lemma main_repository_accepted:
  assumes "Getenv env ''GITHUB_REPOSITORY'' \<noteq> []"
    and "count_list (Getenv env ''GITHUB_REPOSITORY'') CHR ''/'' = 1"
  shows "main env newGitHubClient U rnd \<noteq> Some (Inl RepositoryNotSet, [])
     \<and> main env newGitHubClient U rnd \<noteq> Some (Inl RepositoryFormatInvalid, [])"
  using assms
  by (auto simp add: main_def Let_def length_Split
      split: option.splits sum.splits prod.splits dest: handleTitleBasedLabel_fatal)

lemma Split_no_separator: "sep \<notin> set s \<Longrightarrow> Split s sep = [s]"
  by (induction s) auto

lemma Split_one_separator:
  "sep \<notin> set owner \<Longrightarrow> sep \<notin> set name \<Longrightarrow> Split (owner @ sep # name) sep = [owner, name]"
  by (induction owner) (auto simp add: Split_no_separator)

lemma list_contributors_extends:
  assumes "list_contributors client owner repo author opts acc h = Some res"
  shows "\<exists>ext. snd res = h @ ext"
  by (rule list_contributors.raw_induct
        [where P = "\<lambda>c ow r a opts acc h res. \<exists>ext. snd res = h @ ext", OF _ assms])
     (fastforce split: sum.splits if_splits prod.splits)

lemma assignDefaultReviewers_extends:
  assumes "assignDefaultReviewers client rnd owner repo prNumber pr h = Some h'"
  shows "\<exists>ext. h' = h @ ext"
proof (cases "length (RequestedReviewers pr) \<noteq> 0")
  case True
  then show ?thesis using assms by (simp add: assignDefaultReviewers_def)
next
  case False
  then obtain cs h1 where w: "list_contributors client owner repo (User pr)
      \<lparr>Page = 0, PerPage = 100, Anon = []\<rparr> [] h = Some (cs, h1)"
    using assms by (auto simp add: assignDefaultReviewers_def split: option.splits)
  obtain ext where "h1 = h @ ext"
    using list_contributors_extends [OF w] by auto
  then show ?thesis
    using assms False w by (auto simp add: assignDefaultReviewers_def split: if_splits)
qed

lemma rules_extend:
  "\<exists>ext. snd (handleTitleBasedLabel U owner repo prNumber pr h) = h @ ext"
  "\<exists>ext. handleDayLabel client owner repo prNumber pr h = h @ ext"
  "\<exists>ext. assignDefaultAssignee owner repo prNumber pr h = h @ ext"
  by (auto simp add: handleTitleBasedLabel_def handleDayLabel_def assignDefaultAssignee_def Let_def
      split: option.splits sum.splits)

lemma main_first_call:
  assumes "Getenv env ''GITHUB_TOKEN'' \<noteq> []"
    and "Getenv env ''GITHUB_REPOSITORY'' = owner @ CHR ''/'' # name"
    and "CHR ''/'' \<notin> set owner" and "CHR ''/'' \<notin> set name"
    and "Getenv env ''PR_NUMBER'' \<noteq> []"
    and "Atoi (Getenv env ''PR_NUMBER'') = Some n"
  shows "main env newGitHubClient U rnd = None
     \<or> (\<exists>exit calls. main env newGitHubClient U rnd = Some (exit, Get owner name n # calls))"
proof -
  let ?c = "newGitHubClient (Getenv env ''GITHUB_TOKEN'')"
  let ?h0 = "[Get owner name n]"
  have parts: "Split (Getenv env ''GITHUB_REPOSITORY'') CHR ''/'' = [owner, name]"
    using assms(2-4) by (simp add: Split_one_separator)
  show ?thesis
  proof (cases "PullRequests_Get ?c [] owner name n")
    case (Inl err)
    then show ?thesis
      using assms parts by (simp add: main_def Let_def)
  next
    case (Inr pr)
    obtain r1 h1 where t: "handleTitleBasedLabel U owner name n pr ?h0 = (r1, h1)"
      by (cases "handleTitleBasedLabel U owner name n pr ?h0") auto
    obtain e1 where h1: "h1 = ?h0 @ e1"
      using rules_extend(1) [of U owner name n pr ?h0] t by auto
    show ?thesis
    proof (cases r1)
      case (Inl f)
      then show ?thesis
        using assms parts Inr t h1 by (simp add: main_def Let_def)
    next
      case (Inr u)
      let ?h2 = "handleDayLabel ?c owner name n pr h1"
      let ?h3 = "assignDefaultAssignee owner name n pr ?h2"
      obtain e2 where h2: "?h2 = h1 @ e2"
        using rules_extend(2) by blast
      obtain e3 where h3: "?h3 = ?h2 @ e3"
        using rules_extend(3) by blast
      show ?thesis
      proof (cases "assignDefaultReviewers ?c rnd owner name n pr ?h3")
        case None
        then show ?thesis
          using assms parts \<open>PullRequests_Get ?c [] owner name n = Inr pr\<close> t Inr
          by (simp add: main_def Let_def)
      next
        case (Some h4)
        obtain e4 where "h4 = ?h3 @ e4"
          using assignDefaultReviewers_extends [OF Some] by auto
        then have "h4 = Get owner name n # (e1 @ e2 @ e3 @ e4)"
          using h1 h2 h3 by simp
        then show ?thesis
          using assms parts \<open>PullRequests_Get ?c [] owner name n = Inr pr\<close> t Inr Some
          by (simp add: main_def Let_def)
      qed
    qed
  qed
qed

text \<open>
  C3, as the claim has it, fails: the program counts the pieces and never looks whether
  one is empty. With \<open>/name\<close> or \<open>owner/\<close> as the repository the run passes the start-up
  checks, fetches the pull request with an empty owner or name, runs all four rules and
  exits normally.
\<close>

theorem C3_empty_part_counterexample:
  "main (environment ''token'' ''/name'' ''7'') settled_client identity_table draw_zero
     = Some (Inr (), [Get [] ''name'' 7, ListFiles [] ''name'' 7 None])
   \<and> main (environment ''token'' ''owner/'' ''7'') settled_client identity_table draw_zero
     = Some (Inr (), [Get ''owner'' [] 7, ListFiles ''owner'' [] 7 None])"
  by code_simp

text \<open>
  C3, amended. When the repository identifier is absent (empty) or does not hold exactly
  one \<open>/\<close>, the run ends fatally at start-up, before any call on the service and before
  any rule; with a token set, the exit is the one for the missing or the ill-formed
  repository. An identifier with exactly one \<open>/\<close> passes this check, whatever stands
  on either side of the \<open>/\<close>: with a token and a number set, the run goes on to fetch
  the pull request under the two pieces, empty or not.
\<close>

theorem C3_repository_validation:
  "(Getenv env ''GITHUB_REPOSITORY'' = []
      \<or> count_list (Getenv env ''GITHUB_REPOSITORY'') CHR ''/'' \<noteq> 1 \<longrightarrow>
    main env newGitHubClient U rnd = Some (Inl TokenNotSet, [])
      \<or> main env newGitHubClient U rnd = Some (Inl RepositoryNotSet, [])
      \<or> main env newGitHubClient U rnd = Some (Inl RepositoryFormatInvalid, []))
   \<and> (Getenv env ''GITHUB_TOKEN'' \<noteq> [] \<and> Getenv env ''GITHUB_REPOSITORY'' = [] \<longrightarrow>
        main env newGitHubClient U rnd = Some (Inl RepositoryNotSet, []))
   \<and> (Getenv env ''GITHUB_TOKEN'' \<noteq> [] \<and> Getenv env ''GITHUB_REPOSITORY'' \<noteq> []
        \<and> count_list (Getenv env ''GITHUB_REPOSITORY'') CHR ''/'' \<noteq> 1 \<longrightarrow>
        main env newGitHubClient U rnd = Some (Inl RepositoryFormatInvalid, []))
   \<and> (Getenv env ''GITHUB_REPOSITORY'' \<noteq> []
        \<and> count_list (Getenv env ''GITHUB_REPOSITORY'') CHR ''/'' = 1 \<longrightarrow>
        main env newGitHubClient U rnd \<noteq> Some (Inl RepositoryNotSet, [])
        \<and> main env newGitHubClient U rnd \<noteq> Some (Inl RepositoryFormatInvalid, []))
   \<and> (Getenv env ''GITHUB_TOKEN'' \<noteq> []
        \<and> Getenv env ''GITHUB_REPOSITORY'' = owner @ CHR ''/'' # name
        \<and> CHR ''/'' \<notin> set owner \<and> CHR ''/'' \<notin> set name
        \<and> Getenv env ''PR_NUMBER'' \<noteq> [] \<and> Atoi (Getenv env ''PR_NUMBER'') = Some n \<longrightarrow>
        main env newGitHubClient U rnd = None
        \<or> (\<exists>exit calls.
              main env newGitHubClient U rnd = Some (exit, Get owner name n # calls)))"
  using main_repository_rejected [of env newGitHubClient U rnd]
    main_repository_named [of env newGitHubClient U rnd]
    main_repository_accepted [of env newGitHubClient U rnd]
    main_first_call [of env owner name n newGitHubClient U rnd]
  by blast

theorem C3_repository_validation_witness:
  "main (environment ''token'' ''owner/name/extra'' ''7'') settled_client identity_table draw_zero
     = Some (Inl RepositoryFormatInvalid, [])
   \<and> main (environment ''token'' ''owner'' ''7'') settled_client identity_table draw_zero
     = Some (Inl RepositoryFormatInvalid, [])
   \<and> main (environment ''token'' [] ''7'') settled_client identity_table draw_zero
     = Some (Inl RepositoryNotSet, [])
   \<and> main (environment ''token'' ''/name'' ''7'') settled_client identity_table draw_zero
     \<noteq> Some (Inl RepositoryFormatInvalid, [])
   \<and> (main (environment ''token'' ''/name'' ''7'') settled_client identity_table draw_zero = None
      \<or> (\<exists>exit calls.
            main (environment ''token'' ''/name'' ''7'') settled_client identity_table draw_zero
              = Some (exit, Get [] ''name'' 7 # calls)))"
proof -
  have t: "\<And>r n. Getenv (environment ''token'' r n) ''GITHUB_TOKEN'' \<noteq> []"
    by (simp add: Getenv_def environment_def)
  have r: "\<And>r n. Getenv (environment ''token'' r n) ''GITHUB_REPOSITORY'' = r"
    by (simp add: Getenv_def environment_def)
  have n: "\<And>r. Getenv (environment ''token'' r ''7'') ''PR_NUMBER'' = ''7''"
    by (simp add: Getenv_def environment_def)
  have seven: "Atoi ''7'' = Some 7"
    by code_simp
  have a: "main (environment ''token'' ''owner/name/extra'' ''7'') settled_client identity_table draw_zero
     = Some (Inl RepositoryFormatInvalid, [])"
    using C3_repository_validation [where env = "environment ''token'' ''owner/name/extra'' ''7''"
        and newGitHubClient = settled_client and U = identity_table and rnd = draw_zero]
    by (simp add: t r)
  have b: "main (environment ''token'' ''owner'' ''7'') settled_client identity_table draw_zero
     = Some (Inl RepositoryFormatInvalid, [])"
    using C3_repository_validation [where env = "environment ''token'' ''owner'' ''7''"
        and newGitHubClient = settled_client and U = identity_table and rnd = draw_zero]
    by (simp add: t r)
  have c: "main (environment ''token'' [] ''7'') settled_client identity_table draw_zero
     = Some (Inl RepositoryNotSet, [])"
    using C3_repository_validation [where env = "environment ''token'' [] ''7''"
        and newGitHubClient = settled_client and U = identity_table and rnd = draw_zero]
    by (simp add: t r)
  have d: "main (environment ''token'' ''/name'' ''7'') settled_client identity_table draw_zero
       \<noteq> Some (Inl RepositoryFormatInvalid, [])
     \<and> (main (environment ''token'' ''/name'' ''7'') settled_client identity_table draw_zero = None
        \<or> (\<exists>exit calls.
            main (environment ''token'' ''/name'' ''7'') settled_client identity_table draw_zero
              = Some (exit, Get [] ''name'' 7 # calls)))"
    using C3_repository_validation [where env = "environment ''token'' ''/name'' ''7''"
        and newGitHubClient = settled_client and U = identity_table and rnd = draw_zero
        and owner = "[]" and name = "''name''" and n = 7]
    by (simp add: t r n seven)
  from a b c d show ?thesis by blast
qed

section \<open>The title rule\<close>

lemma Contains_one: "Contains s [c] = (c \<in> set s)"
  by (induction s) auto

lemma first_part: "SplitN2 title sep ! 0 = takeWhile (\<lambda>c. c \<noteq> sep) title"
proof (cases "sep \<in> set title")
  case True
  then show ?thesis by (simp add: SplitN2_def)
next
  case False
  then have whole: "takeWhile (\<lambda>c. c \<noteq> sep) title = title"
    by (induction title) auto
  show ?thesis using False by (simp add: SplitN2_def whole)
qed

lemma clean_prefix_eq:
  "clean_prefix U title =
     remove_bracket_tail (ToLower U (TrimSpace (takeWhile (\<lambda>c. c \<noteq> 0x3A) title)))"
  by (simp add: clean_prefix_def Let_def first_part)

lemma lower_rune_keeps_colon [simp]: "lower_rune U 0x3A = 0x3A"
  by (simp add: lower_rune_def)

lemma lower_rune_not_capital:
  assumes "case_table_ok U"
  shows "\<not> (0x41 \<le> lower_rune U r \<and> lower_rune U r \<le> 0x5A)"
    and "lower_rune U r \<le> 0x60 \<Longrightarrow> lower_rune U r = r"
proof -
  have t: "0x7F < r \<Longrightarrow> 0x7F < U r \<or> (0x61 \<le> U r \<and> U r \<le> 0x7A)"
    using assms by (simp add: case_table_ok_def)
  show "\<not> (0x41 \<le> lower_rune U r \<and> lower_rune U r \<le> 0x5A)"
    using t by (auto simp add: lower_rune_def)
  show "lower_rune U r \<le> 0x60 \<Longrightarrow> lower_rune U r = r"
    using t by (auto simp add: lower_rune_def split: if_splits)
qed

lemma lower_rune_colon_iff:
  assumes "case_table_ok U"
  shows "(lower_rune U r = 0x3A) = (r = 0x3A)"
  using lower_rune_not_capital(2) [OF assms, of r] by auto

lemma lower_rune_line_feed_iff:
  assumes "case_table_ok U"
  shows "(lower_rune U r = 0x0A) = (r = 0x0A)"
  using lower_rune_not_capital(2) [OF assms, of r] by (auto simp add: lower_rune_def)

lemma colon_in_ToLower: "0x3A \<in> set s \<Longrightarrow> 0x3A \<in> set (ToLower U s)"
  unfolding ToLower_def set_map using lower_rune_keeps_colon [of U] by (metis imageI)

lemma colon_in_ToLower_iff:
  assumes "case_table_ok U"
  shows "(0x3A \<in> set (ToLower U s)) = (0x3A \<in> set s)"
  by (auto simp add: ToLower_def lower_rune_colon_iff [OF assms])

lemma line_feed_in_ToLower_iff:
  assumes "case_table_ok U"
  shows "(0x0A \<in> set (ToLower U s)) = (0x0A \<in> set s)"
  by (auto simp add: ToLower_def lower_rune_line_feed_iff [OF assms])

lemma labelMap_empty: "labelMap [] = None"
  by (simp add: labelMap_def runes_def)

lemma title_without_colon:
  assumes "case_table_ok U" and "0x3A \<notin> set (Title pr)"
  shows "handleTitleBasedLabel U owner repo prNumber pr h = (Inl TitleNoColon, h)"
  using assms by (simp add: handleTitleBasedLabel_def Contains_one colon_in_ToLower_iff)

lemma title_with_empty_prefix:
  assumes "0x3A \<in> set (Title pr)" and "clean_prefix U (Title pr) = []"
  shows "handleTitleBasedLabel U owner repo prNumber pr h = (Inl (NoMatchingLabel []), h)"
  using assms
  by (simp add: handleTitleBasedLabel_def Contains_one colon_in_ToLower labelMap_empty)

text \<open>A fatal exit of the title rule is the exit of the run, and no rule has written yet.\<close>

lemma main_title_fatal:
  assumes "\<forall>h owner repo n pr. PullRequests_Get (newGitHubClient (Getenv env ''GITHUB_TOKEN'')) h owner repo n = Inr pr
             \<longrightarrow> (\<exists>f. \<forall>h'. handleTitleBasedLabel U owner repo n pr h' = (Inl f, h'))"
  shows "\<exists>f calls. main env newGitHubClient U rnd = Some (Inl f, calls) \<and> \<not> list_ex is_write calls"
proof -
  let ?client = "newGitHubClient (Getenv env ''GITHUB_TOKEN'')"
  have step: "\<And>owner repo n pr. PullRequests_Get ?client [] owner repo n = Inr pr \<Longrightarrow>
      \<exists>f. handleTitleBasedLabel U owner repo n pr [Get owner repo n] = (Inl f, [Get owner repo n])"
    using assms by blast
  show ?thesis
    by (auto simp add: main_def Let_def split: option.splits sum.splits prod.splits dest!: step)
qed

lemma dropWhile_stops:
  "\<not> P b \<Longrightarrow> dropWhile P (p @ b # a) = dropWhile P p @ b # a"
  by (induction p) auto

lemma takeWhile_stops:
  "\<not> P b \<Longrightarrow> takeWhile P (p @ b # a) = takeWhile P p"
  by (induction p) auto

lemma bracket_facts:
  assumes "is_open_bracket b"
  shows "\<not> IsSpace b" and "lower_rune U b = b" and "b \<noteq> 0x0A" and "b \<noteq> 0x3A"
  using assms by (auto simp add: is_open_bracket_def IsSpace_def lower_rune_def)

lemma TrimSpace_at_bracket:
  assumes "is_open_bracket b"
  shows "TrimSpace (p @ b # a) = dropWhile IsSpace p @ b # rev (dropWhile IsSpace (rev a))"
proof -
  have ns: "\<not> IsSpace b"
    using assms by (rule bracket_facts)
  have "dropWhile IsSpace (rev a @ b # rev (dropWhile IsSpace p))
      = dropWhile IsSpace (rev a) @ b # rev (dropWhile IsSpace p)"
    using ns by (rule dropWhile_stops [of IsSpace b])
  then show ?thesis
    by (simp add: TrimSpace_def dropWhile_stops [of IsSpace b, OF ns])
qed

lemma set_right_trim: "set (rev (dropWhile IsSpace (rev a))) \<subseteq> set a"
  using set_dropWhileD [of _ IsSpace "rev a"] by auto

lemma clean_prefix_colon_first: "clean_prefix U (0x3A # rest) = []"
  by (simp add: clean_prefix_eq TrimSpace_def ToLower_def)

lemma clean_prefix_bracket_first:
  assumes "case_table_ok U" and "is_open_bracket b"
    and "0x0A \<notin> set (takeWhile (\<lambda>c. c \<noteq> 0x3A) rest)"
  shows "clean_prefix U (b # rest) = []"
proof -
  let ?a = "takeWhile (\<lambda>c. c \<noteq> 0x3A) rest"
  let ?t = "rev (dropWhile IsSpace (rev ?a))"
  have "takeWhile (\<lambda>c. c \<noteq> 0x3A) (b # rest) = b # ?a"
    using bracket_facts(4) [OF assms(2)] by simp
  moreover have "TrimSpace (b # ?a) = b # ?t"
    using TrimSpace_at_bracket [OF assms(2), of "[]" ?a] by simp
  moreover have "ToLower U (b # ?t) = b # ToLower U ?t"
    using bracket_facts(2) [OF assms(2)] by (simp add: ToLower_def)
  moreover have "0x0A \<notin> set (ToLower U ?t)"
    using assms(3) set_right_trim [of ?a] line_feed_in_ToLower_iff [OF assms(1), of ?t] by blast
  ultimately show ?thesis
    using assms(2) by (simp add: clean_prefix_eq)
qed

lemma identity_table_ok: "case_table_ok identity_table"
  by (simp add: case_table_ok_def identity_table_def)

text \<open>
  C5. A title without a colon makes the title rule exit fatally, whatever else the
  title holds; and when the pull request the service returns has such a title, the run
  ends fatally with no write made. The program looks for the colon in the lower-case
  title, so the statement rests on the case tables bringing no colon in
  (\<open>case_table_ok\<close>).
\<close>

theorem C5_title_without_colon_fatal:
  assumes "case_table_ok U"
  shows "(0x3A \<notin> set (Title pr) \<longrightarrow>
            handleTitleBasedLabel U owner repo prNumber pr h = (Inl TitleNoColon, h))
     \<and> ((\<forall>h' owner' repo' n' pr'.
            PullRequests_Get (newGitHubClient (Getenv env ''GITHUB_TOKEN'')) h' owner' repo' n'
              = Inr pr' \<longrightarrow> 0x3A \<notin> set (Title pr')) \<longrightarrow>
          (\<exists>f calls. main env newGitHubClient U rnd = Some (Inl f, calls)
              \<and> \<not> list_ex is_write calls))"
proof -
  have rule: "0x3A \<notin> set (Title pr) \<longrightarrow>
            handleTitleBasedLabel U owner repo prNumber pr h = (Inl TitleNoColon, h)"
    using title_without_colon [OF assms] by blast
  have run: "(\<forall>h' owner' repo' n' pr'.
            PullRequests_Get (newGitHubClient (Getenv env ''GITHUB_TOKEN'')) h' owner' repo' n'
              = Inr pr' \<longrightarrow> 0x3A \<notin> set (Title pr')) \<longrightarrow>
          (\<exists>f calls. main env newGitHubClient U rnd = Some (Inl f, calls)
              \<and> \<not> list_ex is_write calls)"
  proof
    assume a: "\<forall>h' owner' repo' n' pr'.
            PullRequests_Get (newGitHubClient (Getenv env ''GITHUB_TOKEN'')) h' owner' repo' n'
              = Inr pr' \<longrightarrow> 0x3A \<notin> set (Title pr')"
    have "\<forall>h owner repo n pr.
        PullRequests_Get (newGitHubClient (Getenv env ''GITHUB_TOKEN'')) h owner repo n = Inr pr
        \<longrightarrow> (\<exists>f. \<forall>h'. handleTitleBasedLabel U owner repo n pr h' = (Inl f, h'))"
      using a title_without_colon [OF assms] by blast
    then show "\<exists>f calls. main env newGitHubClient U rnd = Some (Inl f, calls)
              \<and> \<not> list_ex is_write calls"
      by (rule main_title_fatal)
  qed
  from rule run show ?thesis by blast
qed

theorem C5_title_without_colon_fatal_witness:
  "case_table_ok identity_table \<and> 0x3A \<notin> set (Title pr_untagged)
   \<and> handleTitleBasedLabel identity_table ''owner'' ''name'' 7 pr_untagged []
        = (Inl TitleNoColon, [])
   \<and> (\<exists>f calls. main (environment ''token'' ''owner/name'' ''7'') untagged_client
                   identity_table draw_zero = Some (Inl f, calls)
          \<and> \<not> list_ex is_write calls)"
proof -
  have t: "0x3A \<notin> set (Title pr_untagged)"
    by (simp add: pr_untagged_def runes_def)
  have s: "\<forall>h' owner' repo' n' pr'.
      PullRequests_Get (untagged_client (Getenv (environment ''token'' ''owner/name'' ''7'') ''GITHUB_TOKEN''))
        h' owner' repo' n' = Inr pr' \<longrightarrow> 0x3A \<notin> set (Title pr')"
    using t by (auto simp add: untagged_client_def paged_service_def)
  show ?thesis
    using identity_table_ok t s
      C5_title_without_colon_fatal [OF identity_table_ok, of pr_untagged "''owner''" "''name''" 7 "[]"
        untagged_client "environment ''token'' ''owner/name'' ''7''" draw_zero]
    by blast
qed

text \<open>
  C10. A title that holds a colon and whose cleaned prefix is empty makes the title rule
  exit fatally with the unmatched prefix \<open>[]\<close>: the label map has no entry for the empty
  string. When the pull request the service returns has such a title, the run ends
  fatally with no write made. A title that starts with a colon has an empty cleaned
  prefix; so has one that starts with an opening bracket, as long as no line feed stands
  between the bracket and the first colon.
\<close>

theorem C10_empty_prefix_fatal:
  "(0x3A \<in> set (Title pr) \<and> clean_prefix U (Title pr) = [] \<longrightarrow>
      handleTitleBasedLabel U owner repo prNumber pr h = (Inl (NoMatchingLabel []), h))
   \<and> labelMap [] = None
   \<and> ((\<forall>h' owner' repo' n' pr'.
          PullRequests_Get (newGitHubClient (Getenv env ''GITHUB_TOKEN'')) h' owner' repo' n'
            = Inr pr' \<longrightarrow> 0x3A \<in> set (Title pr') \<and> clean_prefix U (Title pr') = []) \<longrightarrow>
        (\<exists>f calls. main env newGitHubClient U rnd = Some (Inl f, calls)
            \<and> \<not> list_ex is_write calls))
   \<and> clean_prefix U (0x3A # rest) = []
   \<and> (case_table_ok U \<and> is_open_bracket b
        \<and> 0x0A \<notin> set (takeWhile (\<lambda>c. c \<noteq> 0x3A) rest) \<longrightarrow> clean_prefix U (b # rest) = [])"
proof -
  have rule: "0x3A \<in> set (Title pr) \<and> clean_prefix U (Title pr) = [] \<longrightarrow>
      handleTitleBasedLabel U owner repo prNumber pr h = (Inl (NoMatchingLabel []), h)"
    using title_with_empty_prefix by blast
  have run: "(\<forall>h' owner' repo' n' pr'.
          PullRequests_Get (newGitHubClient (Getenv env ''GITHUB_TOKEN'')) h' owner' repo' n'
            = Inr pr' \<longrightarrow> 0x3A \<in> set (Title pr') \<and> clean_prefix U (Title pr') = []) \<longrightarrow>
        (\<exists>f calls. main env newGitHubClient U rnd = Some (Inl f, calls)
            \<and> \<not> list_ex is_write calls)"
  proof
    assume a: "\<forall>h' owner' repo' n' pr'.
          PullRequests_Get (newGitHubClient (Getenv env ''GITHUB_TOKEN'')) h' owner' repo' n'
            = Inr pr' \<longrightarrow> 0x3A \<in> set (Title pr') \<and> clean_prefix U (Title pr') = []"
    have "\<forall>h owner repo n pr.
        PullRequests_Get (newGitHubClient (Getenv env ''GITHUB_TOKEN'')) h owner repo n = Inr pr
        \<longrightarrow> (\<exists>f. \<forall>h'. handleTitleBasedLabel U owner repo n pr h' = (Inl f, h'))"
      using a title_with_empty_prefix by blast
    then show "\<exists>f calls. main env newGitHubClient U rnd = Some (Inl f, calls)
            \<and> \<not> list_ex is_write calls"
      by (rule main_title_fatal)
  qed
  have ex: "case_table_ok U \<and> is_open_bracket b
        \<and> 0x0A \<notin> set (takeWhile (\<lambda>c. c \<noteq> 0x3A) rest) \<longrightarrow> clean_prefix U (b # rest) = []"
    using clean_prefix_bracket_first by blast
  from rule run ex labelMap_empty clean_prefix_colon_first [of U rest] show ?thesis
    by blast
qed

theorem C10_empty_prefix_fatal_witness:
  "0x3A \<in> set (Title pr_scope_only) \<and> clean_prefix identity_table (Title pr_scope_only) = []
   \<and> handleTitleBasedLabel identity_table ''owner'' ''name'' 7 pr_scope_only []
        = (Inl (NoMatchingLabel []), [])
   \<and> (\<exists>f calls. main (environment ''token'' ''owner/name'' ''7'') scope_only_client
                   identity_table draw_zero = Some (Inl f, calls)
          \<and> \<not> list_ex is_write calls)"
proof -
  have t: "0x3A \<in> set (Title pr_scope_only)"
    by (simp add: pr_scope_only_def runes_def)
  have c: "clean_prefix identity_table (Title pr_scope_only) = []"
    by code_simp
  have s: "\<forall>h' owner' repo' n' pr'.
      PullRequests_Get (scope_only_client (Getenv (environment ''token'' ''owner/name'' ''7'') ''GITHUB_TOKEN''))
        h' owner' repo' n' = Inr pr' \<longrightarrow>
      0x3A \<in> set (Title pr') \<and> clean_prefix identity_table (Title pr') = []"
    using t c by (auto simp add: scope_only_client_def paged_service_def)
  show ?thesis
    using t c s
      C10_empty_prefix_fatal [of pr_scope_only identity_table "''owner''" "''name''" 7 "[]"
        scope_only_client "environment ''token'' ''owner/name'' ''7''" draw_zero]
    by blast
qed

subsection \<open>Scopes in brackets and letter case\<close>

lemma remove_bracket_tail_cut:
  assumes "is_open_bracket b" and "0x0A \<notin> set y"
  shows "remove_bracket_tail (x @ b # y) = remove_bracket_tail x"
  using assms bracket_facts(3) [OF assms(1)] by (induction x) auto

lemma remove_bracket_tail_spec:
  "0x0A \<notin> set s \<Longrightarrow> remove_bracket_tail s = takeWhile (\<lambda>r. \<not> is_open_bracket r) s"
  by (induction s) auto

lemma dropWhile_rev_last:
  "xs \<noteq> [] \<Longrightarrow> \<not> P (last xs) \<Longrightarrow> dropWhile P (rev xs) = rev xs"
  by (cases xs rule: rev_cases) auto

lemma TrimSpace_no_trailing_space:
  assumes "p = [] \<or> \<not> IsSpace (last p)"
  shows "TrimSpace p = dropWhile IsSpace p"
proof (cases "dropWhile IsSpace p = []")
  case True
  have "TrimSpace p = rev (dropWhile IsSpace (rev []))"
    unfolding TrimSpace_def True ..
  also have "\<dots> = []"
    by simp
  finally show ?thesis unfolding True .
next
  case False
  let ?q = "dropWhile IsSpace p"
  have "p = takeWhile IsSpace p @ ?q"
    by simp
  then have "last p = last ?q"
    using False by (metis last_appendR)
  moreover have "p \<noteq> []"
    using False by auto
  ultimately have ns: "\<not> IsSpace (last ?q)"
    using assms by simp
  have "dropWhile IsSpace (rev ?q) = rev ?q"
    using False ns by (rule dropWhile_rev_last)
  then show ?thesis by (simp add: TrimSpace_def)
qed

lemma clean_prefix_scope:
  assumes "case_table_ok U" and "p = [] \<or> \<not> IsSpace (last p)" and "0x0A \<notin> set a"
  shows "clean_prefix U (p @ runes ''('' @ a @ runes ''): '' @ rest)
       = clean_prefix U (p @ runes '': '' @ rest)"
proof (cases "0x3A \<in> set p")
  case True
  then have "\<And>tail. takeWhile (\<lambda>c. c \<noteq> 0x3A) (p @ tail) = takeWhile (\<lambda>c. c \<noteq> 0x3A) p"
    by (simp add: takeWhile_append1 [of "0x3A" p])
  then show ?thesis by (simp add: clean_prefix_eq)
next
  case False
  let ?a = "takeWhile (\<lambda>c. c \<noteq> 0x3A) (a @ [0x29])"
  let ?t = "rev (dropWhile IsSpace (rev ?a))"
  have br: "is_open_bracket 0x28"
    by (simp add: is_open_bracket_def)
  have all: "\<And>x. x \<in> set p \<Longrightarrow> x \<noteq> 0x3A"
    using False by auto
  have short: "takeWhile (\<lambda>c. c \<noteq> 0x3A) (p @ runes '': '' @ rest) = p"
    using all by (simp add: runes_def takeWhile_append2)
  have "takeWhile (\<lambda>c. c \<noteq> 0x3A) ((a @ [0x29]) @ 0x3A # 0x20 # rest) = ?a"
    by (rule takeWhile_stops) simp
  then have long: "takeWhile (\<lambda>c. c \<noteq> 0x3A) (p @ runes ''('' @ a @ runes ''): '' @ rest)
      = p @ 0x28 # ?a"
    using all by (simp add: runes_def takeWhile_append2)
  have trim_long: "TrimSpace (p @ 0x28 # ?a) = dropWhile IsSpace p @ 0x28 # ?t"
    using br by (rule TrimSpace_at_bracket)
  have trim_short: "TrimSpace p = dropWhile IsSpace p"
    using assms(2) by (rule TrimSpace_no_trailing_space)
  have "set ?a \<subseteq> set (a @ [0x29])"
    using set_takeWhileD by fastforce
  then have "0x0A \<notin> set ?a"
    using assms(3) by auto
  then have "0x0A \<notin> set ?t"
    using set_right_trim [of ?a] by blast
  then have lf: "0x0A \<notin> set (ToLower U ?t)"
    using line_feed_in_ToLower_iff [OF assms(1)] by simp
  have "ToLower U (dropWhile IsSpace p @ 0x28 # ?t)
      = ToLower U (dropWhile IsSpace p) @ 0x28 # ToLower U ?t"
    using bracket_facts(2) [OF br, of U] by (simp add: ToLower_def)
  then have "remove_bracket_tail (ToLower U (dropWhile IsSpace p @ 0x28 # ?t))
      = remove_bracket_tail (ToLower U (dropWhile IsSpace p))"
    using remove_bracket_tail_cut [OF br lf] by simp
  then show ?thesis
    by (simp add: clean_prefix_eq short long trim_long trim_short)
qed

lemma title_rule_depends:
  assumes "(0x3A \<in> set (ToLower U s)) = (0x3A \<in> set (ToLower U t))"
    and "clean_prefix U s = clean_prefix U t"
  shows "handleTitleBasedLabel U owner repo prNumber (pr\<lparr>Title := s\<rparr>) h
       = handleTitleBasedLabel U owner repo prNumber (pr\<lparr>Title := t\<rparr>) h"
  using assms
  by (simp add: handleTitleBasedLabel_def Contains_one Let_def split: option.splits)

lemma title_rule_scope:
  assumes "case_table_ok U" and "p = [] \<or> \<not> IsSpace (last p)" and "0x0A \<notin> set a"
  shows "handleTitleBasedLabel U owner repo prNumber
           (pr\<lparr>Title := p @ runes ''('' @ a @ runes ''): '' @ rest\<rparr>) h
       = handleTitleBasedLabel U owner repo prNumber
           (pr\<lparr>Title := p @ runes '': '' @ rest\<rparr>) h"
proof (rule title_rule_depends)
  have "0x3A \<in> set (p @ runes ''('' @ a @ runes ''): '' @ rest)"
    and "0x3A \<in> set (p @ runes '': '' @ rest)"
    by (simp_all add: runes_def)
  then show "(0x3A \<in> set (ToLower U (p @ runes ''('' @ a @ runes ''): '' @ rest)))
      = (0x3A \<in> set (ToLower U (p @ runes '': '' @ rest)))"
    using colon_in_ToLower by blast
  show "clean_prefix U (p @ runes ''('' @ a @ runes ''): '' @ rest)
      = clean_prefix U (p @ runes '': '' @ rest)"
    using assms by (rule clean_prefix_scope)
qed

lemma clean_prefix_as_specified:
  assumes "case_table_ok U" and "0x0A \<notin> set (takeWhile (\<lambda>r. r \<noteq> 0x3A) title)"
  shows "clean_prefix U title = clean_prefix_spec U title"
proof -
  let ?s = "TrimSpace (takeWhile (\<lambda>r. r \<noteq> 0x3A) title)"
  have "set ?s \<subseteq> set (takeWhile (\<lambda>r. r \<noteq> 0x3A) title)"
    unfolding TrimSpace_def
    using set_right_trim [of "dropWhile IsSpace (takeWhile (\<lambda>r. r \<noteq> 0x3A) title)"]
      set_dropWhileD [of _ IsSpace "takeWhile (\<lambda>r. r \<noteq> 0x3A) title"]
    by blast
  then have "0x0A \<notin> set ?s"
    using assms(2) by blast
  then have "0x0A \<notin> set (ToLower U ?s)"
    using line_feed_in_ToLower_iff [OF assms(1)] by simp
  then show ?thesis
    by (simp add: clean_prefix_eq clean_prefix_spec_def remove_bracket_tail_spec)
qed

text \<open>
  \<open>lower_rune identity_table\<close> changes the ASCII capitals and nothing else, so two
  titles with the same \<open>ToLower identity_table\<close> differ in the case of ASCII letters
  only.
\<close>

lemma ascii_lower_facts:
  "lower_rune U (lower_rune identity_table r) = lower_rune U r"
  "IsSpace (lower_rune identity_table r) = IsSpace r"
  "(lower_rune identity_table r \<noteq> 0x3A) = (r \<noteq> 0x3A)"
  by (auto simp add: lower_rune_def identity_table_def IsSpace_def)

lemma ToLower_after_ascii: "ToLower U (ToLower identity_table s) = ToLower U s"
  by (simp add: ToLower_def ascii_lower_facts(1))

lemma TrimSpace_ascii: "TrimSpace (ToLower identity_table s) = ToLower identity_table (TrimSpace s)"
proof -
  have "\<And>xs. dropWhile IsSpace (map (lower_rune identity_table) xs)
      = map (lower_rune identity_table) (dropWhile IsSpace xs)"
    by (simp add: dropWhile_map comp_def ascii_lower_facts(2))
  then show ?thesis
    by (simp add: TrimSpace_def ToLower_def rev_map)
qed

lemma before_colon_ascii:
  "takeWhile (\<lambda>c. c \<noteq> 0x3A) (ToLower identity_table s)
     = ToLower identity_table (takeWhile (\<lambda>c. c \<noteq> 0x3A) s)"
  by (simp add: ToLower_def takeWhile_map comp_def ascii_lower_facts(3))

lemma clean_prefix_ascii: "clean_prefix U (ToLower identity_table s) = clean_prefix U s"
  by (simp add: clean_prefix_eq before_colon_ascii TrimSpace_ascii ToLower_after_ascii)

lemma title_rule_case:
  assumes "ToLower identity_table s = ToLower identity_table t"
  shows "handleTitleBasedLabel U owner repo prNumber (pr\<lparr>Title := s\<rparr>) h
       = handleTitleBasedLabel U owner repo prNumber (pr\<lparr>Title := t\<rparr>) h"
proof (rule title_rule_depends)
  have "ToLower U s = ToLower U t"
    using assms ToLower_after_ascii [of U s] ToLower_after_ascii [of U t] by simp
  then show "(0x3A \<in> set (ToLower U s)) = (0x3A \<in> set (ToLower U t))"
    by simp
  show "clean_prefix U s = clean_prefix U t"
    using assms clean_prefix_ascii [of U s] clean_prefix_ascii [of U t] by simp
qed

text \<open>
  C6, as the claim has it, fails in two ways. White space is trimmed before the bracket
  part is cut off, so white space between the prefix and the bracket stays:
  \<open>feat (api): x\<close> is looked up as \<open>feat\<close> followed by a space and the run is fatal,
  while \<open>feat : x\<close> gets the label \<open>enhancement\<close>. And the regular expression's \<open>.\<close>
  does not match a line feed, so a bracket with a line feed somewhere after it is not
  cut off.
\<close>

theorem C6_scope_counterexample:
  "handleTitleBasedLabel identity_table ''o'' ''r'' 7
     (pr_open\<lparr>Title := runes ''feat (api): x''\<rparr>) []
     = (Inl (NoMatchingLabel (runes ''feat '')), [])
   \<and> handleTitleBasedLabel identity_table ''o'' ''r'' 7
     (pr_open\<lparr>Title := runes ''feat : x''\<rparr>) []
     = (Inr (), [AddLabelsToIssue ''o'' ''r'' 7 [''enhancement'']])
   \<and> clean_prefix identity_table (runes ''feat(a'' @ [0x0A] @ runes ''b): x'')
     = runes ''feat(a'' @ [0x0A] @ runes ''b)''
   \<and> clean_prefix_spec identity_table (runes ''feat(a'' @ [0x0A] @ runes ''b): x'')
     = runes ''feat''
   \<and> handleTitleBasedLabel identity_table ''o'' ''r'' 7
     (pr_open\<lparr>Title := runes ''feat(a'' @ [0x0A] @ runes ''b): x''\<rparr>) []
     = (Inl (NoMatchingLabel (runes ''feat(a'' @ [0x0A] @ runes ''b)'')), [])
   \<and> handleTitleBasedLabel identity_table ''o'' ''r'' 7
     (pr_open\<lparr>Title := runes ''feat: x''\<rparr>) []
     = (Inr (), [AddLabelsToIssue ''o'' ''r'' 7 [''enhancement'']])"
  by code_simp

text \<open>
  C6, amended. For a title \<open>p(a): rest\<close> where \<open>p\<close> does not end in white space and
  \<open>a\<close> holds no line feed, the title rule does what it does for \<open>p: rest\<close>. The
  cleaned prefix is the text before the first colon, trimmed, in lower case and cut at
  the first opening bracket, whenever no line feed stands before the first colon. Two
  titles that differ only in the case of ASCII letters are treated alike. The first two
  statements rest on the case tables bringing no line feed in (\<open>case_table_ok\<close>).
\<close>

theorem C6_scope_and_case_ignored:
  assumes "case_table_ok U"
  shows "((p = [] \<or> \<not> IsSpace (last p)) \<and> 0x0A \<notin> set a \<longrightarrow>
            handleTitleBasedLabel U owner repo prNumber
              (pr\<lparr>Title := p @ runes ''('' @ a @ runes ''): '' @ rest\<rparr>) h
            = handleTitleBasedLabel U owner repo prNumber
              (pr\<lparr>Title := p @ runes '': '' @ rest\<rparr>) h)
     \<and> (0x0A \<notin> set (takeWhile (\<lambda>r. r \<noteq> 0x3A) title) \<longrightarrow>
            clean_prefix U title = clean_prefix_spec U title)
     \<and> (ToLower identity_table s = ToLower identity_table t \<longrightarrow>
            handleTitleBasedLabel U owner repo prNumber (pr\<lparr>Title := s\<rparr>) h
            = handleTitleBasedLabel U owner repo prNumber (pr\<lparr>Title := t\<rparr>) h)"
  using title_rule_scope [OF assms, where p = p and a = a and owner = owner and repo = repo
        and prNumber = prNumber and pr = pr and rest = rest and h = h]
    clean_prefix_as_specified [OF assms, where title = title]
    title_rule_case [where s = s and t = t and U = U and owner = owner and repo = repo
        and prNumber = prNumber and pr = pr and h = h]
  by blast

theorem C6_scope_and_case_ignored_witness:
  "handleTitleBasedLabel identity_table ''o'' ''r'' 7
     (pr_open\<lparr>Title := runes ''fix'' @ runes ''('' @ runes ''api'' @ runes ''): '' @ runes ''x''\<rparr>) []
     = (Inr (), [AddLabelsToIssue ''o'' ''r'' 7 [''bug'']])
   \<and> clean_prefix identity_table (runes '' Fix[ui]: x'') = runes ''fix''
   \<and> handleTitleBasedLabel identity_table ''o'' ''r'' 7 (pr_open\<lparr>Title := runes ''FEAT: x''\<rparr>) []
     = (Inr (), [AddLabelsToIssue ''o'' ''r'' 7 [''enhancement'']])"
proof -
  have p: "(runes ''fix'' = [] \<or> \<not> IsSpace (last (runes ''fix''))) \<and> 0x0A \<notin> set (runes ''api'')"
    by (simp add: runes_def IsSpace_def)
  have plain: "handleTitleBasedLabel identity_table ''o'' ''r'' 7
      (pr_open\<lparr>Title := runes ''fix'' @ runes '': '' @ runes ''x''\<rparr>) []
     = (Inr (), [AddLabelsToIssue ''o'' ''r'' 7 [''bug'']])"
    by code_simp
  have lf: "0x0A \<notin> set (takeWhile (\<lambda>r. r \<noteq> 0x3A) (runes '' Fix[ui]: x''))"
    by (simp add: runes_def)
  have spec: "clean_prefix_spec identity_table (runes '' Fix[ui]: x'') = runes ''fix''"
    by code_simp
  have same: "ToLower identity_table (runes ''FEAT: x'') = ToLower identity_table (runes ''feat: x'')"
    by code_simp
  have small: "handleTitleBasedLabel identity_table ''o'' ''r'' 7 (pr_open\<lparr>Title := runes ''feat: x''\<rparr>) []
     = (Inr (), [AddLabelsToIssue ''o'' ''r'' 7 [''enhancement'']])"
    by code_simp
  show ?thesis
    using p plain lf spec same small
      C6_scope_and_case_ignored [OF identity_table_ok,
        where p = "runes ''fix''" and a = "runes ''api''" and owner = "''o''" and repo = "''r''"
          and prNumber = 7 and pr = pr_open and rest = "runes ''x''" and h = "[]"
          and title = "runes '' Fix[ui]: x''" and s = "runes ''FEAT: x''"
          and t = "runes ''feat: x''"]
    by simp
qed

end
